theory Spec2Isabelle
  imports Main "HOL-Library.AList"
begin

section \<open>Strings\<close>

text \<open>
  A Python \<open>str\<close> is a sequence of Unicode code points, modelled as the list of their
  numbers. \<open>str\<close> writes one from ASCII text.
\<close>

type_synonym pystr = "int list"

definition str :: "string \<Rightarrow> pystr" where
  "str s = map of_char s"

text \<open>
  The regular expression class \<open>\d\<close> of a \<open>str\<close> pattern: the Unicode decimal digits
  (category Nd). They come in runs of ten, one run per script, from the digit zero to the
  digit nine; the table lists the zeros other than the ASCII one (Unicode 14.0, the
  character database of Python 3.11).
\<close>

definition is_ascii_digit :: "int \<Rightarrow> bool" where
  "is_ascii_digit c = (0x30 \<le> c \<and> c \<le> 0x39)"

definition other_decimal_zeros :: "int list" where
  "other_decimal_zeros =
     [0x660, 0x6F0, 0x7C0, 0x966, 0x9E6, 0xA66, 0xAE6, 0xB66, 0xBE6, 0xC66, 0xCE6, 0xD66,
      0xDE6, 0xE50, 0xED0, 0xF20, 0x1040, 0x1090, 0x17E0, 0x1810, 0x1946, 0x19D0, 0x1A80,
      0x1A90, 0x1B50, 0x1BB0, 0x1C40, 0x1C50, 0xA620, 0xA8D0, 0xA900, 0xA9D0, 0xA9F0,
      0xAA50, 0xABF0, 0xFF10, 0x104A0, 0x10D30, 0x11066, 0x110F0, 0x11136, 0x111D0,
      0x112F0, 0x11450, 0x114D0, 0x11650, 0x116C0, 0x11730, 0x118E0, 0x11950, 0x11C50,
      0x11D50, 0x11DA0, 0x16A60, 0x16AC0, 0x16B50, 0x1D7CE, 0x1D7D8, 0x1D7E2, 0x1D7EC,
      0x1D7F6, 0x1E140, 0x1E2F0, 0x1E950, 0x1FBF0]"

definition other_decimal_digit :: "int \<Rightarrow> bool" where
  "other_decimal_digit c = list_ex (\<lambda>z. z \<le> c \<and> c < z + 10) other_decimal_zeros"

definition is_digit :: "int \<Rightarrow> bool" where
  "is_digit c = (is_ascii_digit c \<or> other_decimal_digit c)"

text \<open>\<open>str.isspace\<close>: the code points Python counts as whitespace.\<close>

definition isspace :: "int \<Rightarrow> bool" where
  "isspace c = (c \<in> set
     [0x9, 0xA, 0xB, 0xC, 0xD, 0x1C, 0x1D, 0x1E, 0x1F, 0x20, 0x85, 0xA0, 0x1680, 0x2000,
      0x2001, 0x2002, 0x2003, 0x2004, 0x2005, 0x2006, 0x2007, 0x2008, 0x2009, 0x200A,
      0x2028, 0x2029, 0x202F, 0x205F, 0x3000])"

text \<open>\<open>s.strip()\<close>: leading and trailing whitespace removed.\<close>

definition strip :: "pystr \<Rightarrow> pystr" where
  "strip s = rev (dropWhile isspace (rev (dropWhile isspace s)))"

text \<open>\<open>s.replace(c, '')\<close> for a one-character \<open>c\<close>: every occurrence removed.\<close>

definition replace_empty :: "int \<Rightarrow> pystr \<Rightarrow> pystr" where
  "replace_empty c s = filter (\<lambda>x. x \<noteq> c) s"

text \<open>
  The expression \<open>phone.replace('-', '').replace(' ', '')\<close>, which the source writes out at
  each place it needs the key of a phone number (\<open>clean_phone\<close>, \<open>clean_search\<close>): the
  hyphen is code point 45, the space 32.
\<close>

definition clean_phone :: "pystr \<Rightarrow> pystr" where
  "clean_phone phone = replace_empty 0x20 (replace_empty 0x2D phone)"

text \<open>
  \<open>bool(re.match(r'^\d{10}$', s))\<close>: ten digits from the start of the string, and then
  \<open>$\<close>, which Python matches at the end of the string and also just before a newline
  (code point 10) that ends the string.
\<close>

definition re_match_ten_digits :: "pystr \<Rightarrow> bool" where
  "re_match_ten_digits s =
     (length (take 10 s) = 10 \<and> list_all is_digit (take 10 s) \<and>
      (drop 10 s = [] \<or> drop 10 s = [0x0A]))"

definition validate_phone :: "pystr \<Rightarrow> bool" where
  "validate_phone phone = re_match_ten_digits (clean_phone phone)"

text \<open>
  The rule as the specification words it: exactly ten decimal digits, the digits of a
  phone number being 0 to 9.
\<close>

definition exactly_ten_digits :: "pystr \<Rightarrow> bool" where
  "exactly_ten_digits s = (length s = 10 \<and> list_all is_ascii_digit s)"

section \<open>Patients and the session's store\<close>

text \<open>
  \<open>Patient\<close>, and the dictionary \<open>to_dict\<close> makes of it: the same six entries.
\<close>

record patient =
  hospital_id :: pystr
  name :: pystr
  age :: int
  gender :: pystr
  phone :: pystr
  address :: pystr

text \<open>
  The dictionary \<open>updated_data\<close> of the update form: five entries, no \<open>hospital_id\<close>.
\<close>

record updated_data =
  new_name :: pystr
  new_age :: int
  new_gender :: pystr
  new_phone :: pystr
  new_address :: pystr

text \<open>
  \<open>st.session_state.patients_db\<close> is a dictionary from phone to a patient dictionary, and
  Python hands such a dictionary around by reference: \<open>get_patient_by_phone\<close> returns the
  very object the store holds, and \<open>update_patient\<close> changes it in place. The model keeps
  the objects in \<open>heap\<close> (an object's reference is its index; a new object is appended)
  and the store as an association list from key to reference, in insertion order, as a
  Python dictionary iterates.
\<close>

record session_state =
  heap :: "patient list"
  patients_db :: "(pystr \<times> nat) list"

definition empty_state :: session_state where
  "empty_state = \<lparr>heap = [], patients_db = []\<rparr>"

text \<open>\<open>del d[k]\<close>: raises \<open>KeyError\<close> (here \<open>None\<close>) when the key is absent.\<close>

definition dict_del :: "'k \<Rightarrow> ('k \<times> 'v) list \<Rightarrow> ('k \<times> 'v) list option" where
  "dict_del k d = (if map_of d k = None then None else Some (AList.delete k d))"

text \<open>\<open>d.update(updated_data)\<close>: the five entries are overwritten, \<open>hospital_id\<close> stays.\<close>

definition dict_update :: "patient \<Rightarrow> updated_data \<Rightarrow> patient" where
  "dict_update d u =
     d\<lparr>name := new_name u, age := new_age u, gender := new_gender u,
       phone := new_phone u, address := new_address u\<rparr>"

text \<open>
  \<open>PatientDatabase.save_patient\<close>: \<open>patients_db[patient.phone] = patient.to_dict()\<close>. An
  existing key keeps its place and gets the new dictionary; a new key goes last. The
  assignment cannot raise, so the result is always \<open>True\<close>.
\<close>

definition save_patient :: "patient \<Rightarrow> session_state \<Rightarrow> bool \<times> session_state" where
  "save_patient p s =
     (True, s\<lparr>heap := heap s @ [p],
              patients_db := AList.update (phone p) (length (heap s)) (patients_db s)\<rparr>)"

definition get_patient_by_phone :: "pystr \<Rightarrow> session_state \<Rightarrow> nat option" where
  "get_patient_by_phone ph s = map_of (patients_db s) ph"

text \<open>\<open>get_patient_by_id\<close>: the first value, in the dictionary's order, with that id.\<close>

fun first_with_id :: "patient list \<Rightarrow> nat list \<Rightarrow> pystr \<Rightarrow> nat option" where
  "first_with_id h [] hid = None"
| "first_with_id h (a # as) hid =
     (if hospital_id (h ! a) = hid then Some a else first_with_id h as hid)"

definition get_patient_by_id :: "pystr \<Rightarrow> session_state \<Rightarrow> nat option" where
  "get_patient_by_id hid s = first_with_id (heap s) (map snd (patients_db s)) hid"

definition update_patient :: "pystr \<Rightarrow> updated_data \<Rightarrow> session_state \<Rightarrow> bool \<times> session_state" where
  "update_patient ph u s =
     (case map_of (patients_db s) ph of
        Some a \<Rightarrow> (True, s\<lparr>heap := (heap s)[a := dict_update (heap s ! a) u]\<rparr>)
      | None \<Rightarrow> (False, s))"

definition get_total_patients :: "session_state \<Rightarrow> nat" where
  "get_total_patients s = length (patients_db s)"

text \<open>
  \<open>generate_hospital_id\<close>: \<open>HSP-\<close> and \<open>str(uuid.uuid4())[:8].upper()\<close>. The random UUID
  is the environment's input, given as its 128-bit number (\<open>UUID.int\<close>). Its text begins with the eight
  hexadecimal digits of the top 32 bits, which \<open>upper\<close> turns into capitals.
\<close>

definition hex_digit_upper :: "int \<Rightarrow> int" where
  "hex_digit_upper d = (if d < 10 then 0x30 + d else 0x41 + (d - 10))"

definition hex8_upper :: "int \<Rightarrow> pystr" where
  "hex8_upper v = map (\<lambda>e. hex_digit_upper (v div 16 ^ e mod 16)) [7, 6, 5, 4, 3, 2, 1, 0 :: nat]"

definition generate_hospital_id :: "int \<Rightarrow> pystr" where
  "generate_hospital_id uuid4 = str ''HSP-'' @ hex8_upper (uuid4 div 2 ^ 96 mod 2 ^ 32)"

section \<open>The registration form\<close>

text \<open>
  \<open>st.number_input(min_value, max_value)\<close> with integer bounds, as both forms create it
  for the age (\<open>min_value=0, max_value=150\<close>): the widget delivers the integer entered
  when it lies within the bounds, and delivers no other.
\<close>

definition number_input :: "int \<Rightarrow> int \<Rightarrow> int \<Rightarrow> int option" where
  "number_input min_value max_value entered =
     (if min_value \<le> entered \<and> entered \<le> max_value then Some entered else None)"

text \<open>
  The values the widgets of the form return are the inputs of a run: \<open>submitted\<close> and the
  five fields. \<open>age_input\<close> is what \<open>number_input 0 150\<close> delivered, an integer from 0 to
  150; the code below the widgets is defined, and its properties are proved, for every
  integer, those included.
\<close>

record registration_form =
  name_input :: pystr
  age_input :: int
  gender_input :: pystr
  phone_input :: pystr
  address_input :: pystr

text \<open>The validation block: \<open>errors = []\<close> and one \<open>append\<close> per failed check, in order.\<close>

definition registration_errors :: "registration_form \<Rightarrow> string list" where
  "registration_errors f =
     (let errors = [];
          errors = (if strip (name_input f) = [] then errors @ [''Name is required'']
                    else errors);
          errors = (if age_input f \<le> 0 then errors @ [''Valid age is required'']
                    else errors);
          errors = (if gender_input f = [] then errors @ [''Gender selection is required'']
                    else errors);
          errors = (if strip (phone_input f) = [] then errors @ [''Phone number is required'']
                    else if \<not> validate_phone (phone_input f)
                    then errors @ [''Please enter a valid 10-digit phone number'']
                    else errors);
          errors = (if strip (address_input f) = [] then errors @ [''Address is required'']
                    else errors)
      in errors)"

datatype registration_result =
    NotSubmitted
  | ValidationErrors "string list"
  | DuplicateKey
  | Registered pystr
  | RegistrationFailed

definition render_patient_registration ::
  "bool \<Rightarrow> registration_form \<Rightarrow> int \<Rightarrow> session_state \<Rightarrow> registration_result \<times> session_state"
where
  "render_patient_registration submitted f uuid4 s =
     (if \<not> submitted then (NotSubmitted, s)
      else
        let errors = registration_errors f in
        if errors \<noteq> [] then (ValidationErrors errors, s)
        else
          let clean = clean_phone (phone_input f) in
          if get_patient_by_phone clean s \<noteq> None then (DuplicateKey, s)
          else
            let hid = generate_hospital_id uuid4;
                p = \<lparr>hospital_id = hid, name = strip (name_input f), age = age_input f,
                     gender = gender_input f, phone = clean,
                     address = strip (address_input f)\<rparr>;
                (saved, s') = save_patient p s
            in if saved then (Registered hid, s') else (RegistrationFailed, s'))"

text \<open>
  An age a user enters is accepted at registration when the widget delivers it and the
  validation of the form holding it reports nothing (the other fields as in \<open>f\<close>).
\<close>

definition registration_accepts_age :: "registration_form \<Rightarrow> int \<Rightarrow> bool" where
  "registration_accepts_age f entered =
     (case number_input 0 150 entered of
        None \<Rightarrow> False
      | Some delivered \<Rightarrow> registration_errors (f\<lparr>age_input := delivered\<rparr>) = [])"

section \<open>The lookup and update forms\<close>

datatype search_type = PhoneNumber | HospitalID

text \<open>
  The update form's widget values; \<open>updated_age\<close> is what \<open>number_input 0 150\<close> delivered,
  as in the registration form.
\<close>

record update_form =
  updated_name :: pystr
  updated_age :: int
  updated_gender :: pystr
  updated_phone :: pystr
  updated_address :: pystr

datatype lookup_result =
    NoSearch
  | InvalidPhone
  | NotFound
  | PatientFound nat
  | ValueError
  | UpdateErrors "string list"
  | Updated
  | UpdatedAndRekeyed
  | UpdateFailed
  | KeyError

text \<open>
  The search: lines 240 to 249 and the \<open>else\<close> of line 315. \<open>str.upper\<close> is Python's, with
  the whole Unicode case mapping behind it; the model takes it as the parameter
  \<open>str_upper\<close> and assumes nothing about it.
\<close>

definition search_patient ::
  "(pystr \<Rightarrow> pystr) \<Rightarrow> search_type \<Rightarrow> pystr \<Rightarrow> session_state \<Rightarrow> lookup_result"
where
  "search_patient str_upper st search_value s =
     (case st of
        PhoneNumber \<Rightarrow>
          (let clean_search = clean_phone search_value in
           if \<not> validate_phone clean_search then InvalidPhone
           else case get_patient_by_phone clean_search s of
                  Some patient_data \<Rightarrow> PatientFound patient_data
                | None \<Rightarrow> NotFound)
      | HospitalID \<Rightarrow>
          (case get_patient_by_id (str_upper search_value) s of
             Some patient_data \<Rightarrow> PatientFound patient_data
           | None \<Rightarrow> NotFound))"

text \<open>The validation block of the update form (no check of the gender).\<close>

definition update_errors :: "update_form \<Rightarrow> string list" where
  "update_errors f =
     (let errors = [];
          errors = (if strip (updated_name f) = [] then errors @ [''Name is required'']
                    else errors);
          errors = (if updated_age f \<le> 0 then errors @ [''Valid age is required'']
                    else errors);
          errors = (if strip (updated_phone f) = [] then errors @ [''Phone number is required'']
                    else if \<not> validate_phone (updated_phone f)
                    then errors @ [''Please enter a valid 10-digit phone number'']
                    else errors);
          errors = (if strip (updated_address f) = [] then errors @ [''Address is required'']
                    else errors)
      in errors)"

definition update_accepts_age :: "update_form \<Rightarrow> int \<Rightarrow> bool" where
  "update_accepts_age f entered =
     (case number_input 0 150 entered of
        None \<Rightarrow> False
      | Some delivered \<Rightarrow> update_errors (f\<lparr>updated_age := delivered\<rparr>) = [])"

text \<open>
  The body of \<open>if update_submitted:\<close>. \<open>patient_data\<close> is the reference the search
  returned, so \<open>patient_data['phone']\<close> is read from the heap at the moment the source
  reads it: once for the argument of \<open>update_patient\<close>, and again, after the update, in
  the comparison of line 307 and in the \<open>del\<close> of line 309. The dictionary
  \<open>updated_data\<close> becomes an object of the heap when line 311 stores it.
\<close>

definition submit_update :: "nat \<Rightarrow> update_form \<Rightarrow> session_state \<Rightarrow> lookup_result \<times> session_state" where
  "submit_update patient_data f s =
     (let errors = update_errors f in
      if errors \<noteq> [] then (UpdateErrors errors, s)
      else
        let u = \<lparr>new_name = strip (updated_name f), new_age = updated_age f,
                 new_gender = updated_gender f, new_phone = clean_phone (updated_phone f),
                 new_address = strip (updated_address f)\<rparr>;
            (ok, s1) = update_patient (phone (heap s ! patient_data)) u s
        in if ok then
             (if new_phone u \<noteq> phone (heap s1 ! patient_data) then
                (case dict_del (phone (heap s1 ! patient_data)) (patients_db s1) of
                   None \<Rightarrow> (KeyError, s1)
                 | Some db \<Rightarrow>
                     (UpdatedAndRekeyed,
                      s1\<lparr>heap := heap s1 @
                            [\<lparr>hospital_id = hospital_id (heap s1 ! patient_data),
                              name = new_name u, age = new_age u, gender = new_gender u,
                              phone = new_phone u, address = new_address u\<rparr>],
                         patients_db := AList.update (new_phone u) (length (heap s1)) db\<rparr>))
              else (Updated, s1))
           else (UpdateFailed, s1))"

text \<open>
  \<open>render_patient_lookup\<close>. The widget values are the inputs: the search form's, and the
  update form's (\<open>None\<close> when it was not submitted). The update form is built from the
  patient found; \<open>list.index\<close> raises \<open>ValueError\<close> for a gender outside the three options.
\<close>

definition render_patient_lookup ::
  "(pystr \<Rightarrow> pystr) \<Rightarrow> bool \<Rightarrow> search_type \<Rightarrow> pystr \<Rightarrow> update_form option \<Rightarrow> session_state
     \<Rightarrow> lookup_result \<times> session_state"
where
  "render_patient_lookup str_upper search_submitted st search_value update_submitted s =
     (if search_submitted \<and> search_value \<noteq> [] then
        (case search_patient str_upper st search_value s of
           PatientFound patient_data \<Rightarrow>
             (if gender (heap s ! patient_data)
                   \<notin> set [str ''Male'', str ''Female'', str ''Other'']
              then (ValueError, s)
              else case update_submitted of
                     None \<Rightarrow> (PatientFound patient_data, s)
                   | Some f \<Rightarrow> submit_update patient_data f s)
         | r \<Rightarrow> (r, s))
      else (NoSearch, s))"

section \<open>Notions the properties are stated with\<close>

text \<open>
  What a reference a lookup returned points to: the patient a caller sees.
\<close>

definition found_by_phone :: "pystr \<Rightarrow> session_state \<Rightarrow> patient option" where
  "found_by_phone ph s = map_option (\<lambda>a. heap s ! a) (get_patient_by_phone ph s)"

definition found_by_id :: "pystr \<Rightarrow> session_state \<Rightarrow> patient option" where
  "found_by_id hid s = map_option (\<lambda>a. heap s ! a) (get_patient_by_id hid s)"

definition stored_ids :: "session_state \<Rightarrow> pystr list" where
  "stored_ids s = map (\<lambda>a. hospital_id (heap s ! a)) (map snd (patients_db s))"

text \<open>
  The shape every store of a Python run has: the keys of a dictionary are distinct, a
  reference points to an object that exists, and no patient dictionary sits under two keys.
\<close>

definition wf :: "session_state \<Rightarrow> bool" where
  "wf s =
     (distinct (map fst (patients_db s)) \<and> distinct (map snd (patients_db s)) \<and>
      list_all (\<lambda>a. a < length (heap s)) (map snd (patients_db s)))"

text \<open>The record a successful registration of a form stores (lines 194 to 201).\<close>

definition registered_record :: "registration_form \<Rightarrow> int \<Rightarrow> patient" where
  "registered_record f uuid4 =
     \<lparr>hospital_id = generate_hospital_id uuid4, name = strip (name_input f),
      age = age_input f, gender = gender_input f, phone = clean_phone (phone_input f),
      address = strip (address_input f)\<rparr>"

text \<open>A sequence of submitted registrations, each with the UUID drawn for it.\<close>

fun register_all ::
  "(registration_form \<times> int) list \<Rightarrow> session_state \<Rightarrow> registration_result list \<times> session_state"
where
  "register_all [] s = ([], s)"
| "register_all ((f, uuid4) # rest) s =
     (let (r, s1) = render_patient_registration True f uuid4 s;
          (rs, s2) = register_all rest s1
      in (r # rs, s2))"

text \<open>
  The stores a session can be in: the empty one, and what a run of either form makes of
  one, whatever the widgets returned (and whatever \<open>str.upper\<close> does).
\<close>

inductive reachable :: "session_state \<Rightarrow> bool" where
  start: "reachable empty_state"
| registration:
    "reachable s \<Longrightarrow> render_patient_registration submitted f uuid4 s = (r, s')
       \<Longrightarrow> reachable s'"
| lookup:
    "reachable s
       \<Longrightarrow> render_patient_lookup str_upper search_submitted st search_value upd s = (r, s')
       \<Longrightarrow> reachable s'"

text \<open>
  A decimal digit that is not one of 0 to 9 occurs in the text (an Arabic-Indic digit,
  say): such text cannot be a phone number of the specification, yet \<open>\d\<close> matches it.
\<close>

definition has_other_decimal_digit :: "pystr \<Rightarrow> bool" where
  "has_other_decimal_digit p = list_ex other_decimal_digit p"

subsection \<open>Sample inputs\<close>

text \<open>The registration of the specification's end-to-end scenario, and its edit.\<close>

definition jane :: registration_form where
  "jane = \<lparr>name_input = str ''Jane Doe'', age_input = 34, gender_input = str ''Female'',
            phone_input = str ''555-000-1111'', address_input = str ''1 Main St''\<rparr>"

definition jane_uuid :: int where
  "jane_uuid = 0x3F2A9C1E7B444D0A9E510C6F2D8A1B37"

definition jane_edit :: update_form where
  "jane_edit = \<lparr>updated_name = str ''Jane Doe'', updated_age = 34,
                 updated_gender = str ''Female'', updated_phone = str ''5559998888'',
                 updated_address = str ''1 Main St''\<rparr>"

text \<open>A UUID that agrees with Ann's in its top 32 bits.\<close>

definition twin_uuid :: int where
  "twin_uuid = 0x0A0A0A0A999949998999999999999999"

text \<open>A submission with every field wrong.\<close>

definition all_wrong :: registration_form where
  "all_wrong = \<lparr>name_input = str ''  '', age_input = 0, gender_input = [],
                 phone_input = str ''12345'', address_input = []\<rparr>"

text \<open>Three more patients, and two edits of the first one's phone.\<close>

definition ann :: registration_form where
  "ann = \<lparr>name_input = str ''Ann'', age_input = 30, gender_input = str ''Female'',
           phone_input = str ''1111111111'', address_input = str ''1 Elm St''\<rparr>"

definition bob :: registration_form where
  "bob = \<lparr>name_input = str ''Bob'', age_input = 40, gender_input = str ''Male'',
           phone_input = str ''2222222222'', address_input = str ''2 Oak St''\<rparr>"

definition cid :: registration_form where
  "cid = \<lparr>name_input = str ''Cid'', age_input = 50, gender_input = str ''Other'',
           phone_input = str ''3333333333'', address_input = str ''3 Ash St''\<rparr>"

definition ann_uuid :: int where
  "ann_uuid = 0x0A0A0A0A111141118111111111111111"

definition bob_uuid :: int where
  "bob_uuid = 0x0B0B0B0B222242228222222222222222"

definition cid_uuid :: int where
  "cid_uuid = 0x0C0C0C0C333343338333333333333333"

definition ann_edit :: "pystr \<Rightarrow> update_form" where
  "ann_edit ph = \<lparr>updated_name = str ''Ann'', updated_age = 30,
                   updated_gender = str ''Female'', updated_phone = ph,
                   updated_address = str ''1 Elm St''\<rparr>"

text \<open>
  Ann registers; her phone is edited to Bob's future number; Bob and Cid register.
\<close>

definition three_patients :: "(pystr \<Rightarrow> pystr) \<Rightarrow> session_state" where
  "three_patients str_upper =
     (let s1 = snd (render_patient_registration True ann ann_uuid empty_state);
          s2 = snd (render_patient_lookup str_upper True PhoneNumber (str ''1111111111'')
                      (Some (ann_edit (str ''2222222222''))) s1);
          s3 = snd (render_patient_registration True bob bob_uuid s2)
      in snd (render_patient_registration True cid cid_uuid s3))"

text \<open>Ten Arabic-Indic digits, one to nine and zero.\<close>

definition arabic_indic_phone :: pystr where
  "arabic_indic_phone =
     [0x661, 0x662, 0x663, 0x664, 0x665, 0x666, 0x667, 0x668, 0x669, 0x660]"

section \<open>Phone validation and normalisation\<close>

lemma clean_phone_idem: "clean_phone (clean_phone p) = clean_phone p"
  by (auto simp: clean_phone_def replace_empty_def intro!: filter_cong)

lemma clean_phone_set: "set (clean_phone p) = set p - {0x2D, 0x20}"
  by (auto simp: clean_phone_def replace_empty_def)

lemma validate_phone_clean: "validate_phone (clean_phone p) = validate_phone p"
  by (simp add: validate_phone_def clean_phone_idem)

lemma has_other_decimal_digit_clean:
  "\<not> has_other_decimal_digit p \<Longrightarrow> \<not> has_other_decimal_digit (clean_phone p)"
  by (auto simp: has_other_decimal_digit_def list_ex_iff clean_phone_set)

lemma exactly_ten_digits_match: "exactly_ten_digits s \<Longrightarrow> re_match_ten_digits s"
  by (simp add: exactly_ten_digits_def re_match_ten_digits_def is_digit_def list_all_iff)

lemma match_plain_text:
  assumes "re_match_ten_digits s" and "0x0A \<notin> set s" and "\<not> has_other_decimal_digit s"
  shows "exactly_ten_digits s"
proof -
  from assms(1) have len: "length (take 10 s) = 10" and dig: "list_all is_digit (take 10 s)"
    and rest: "drop 10 s = [] \<or> drop 10 s = [0x0A]"
    by (simp_all add: re_match_ten_digits_def)
  have "0x0A \<notin> set (drop 10 s)"
    using assms(2) by (meson in_set_dropD)
  with rest have "drop 10 s = []" by auto
  then have whole: "take 10 s = s" by simp
  have "is_ascii_digit c" if "c \<in> set s" for c
  proof -
    from that dig whole have "is_digit c" by (simp add: list_all_iff)
    moreover from that assms(3) have "\<not> other_decimal_digit c"
      by (auto simp: has_other_decimal_digit_def list_ex_iff)
    ultimately show ?thesis by (simp add: is_digit_def)
  qed
  with len whole show ?thesis by (simp add: exactly_ten_digits_def list_all_iff)
qed

text \<open>
  On input that holds no newline and no decimal digit other than 0 to 9 the code decides
  exactly the rule of the specification.
\<close>

lemma validate_phone_iff_plain_text:
  assumes "0x0A \<notin> set p" and "\<not> has_other_decimal_digit p"
  shows "validate_phone p \<longleftrightarrow> exactly_ten_digits (clean_phone p)"
proof
  assume "validate_phone p"
  moreover have "0x0A \<notin> set (clean_phone p)"
    using assms(1) by (simp add: clean_phone_set)
  moreover have "\<not> has_other_decimal_digit (clean_phone p)"
    using assms(2) by (rule has_other_decimal_digit_clean)
  ultimately show "exactly_ten_digits (clean_phone p)"
    by (simp add: validate_phone_def match_plain_text)
next
  assume "exactly_ten_digits (clean_phone p)"
  then show "validate_phone p"
    by (simp add: validate_phone_def exactly_ten_digits_match)
qed

text \<open>
  The same slip of the pattern in another shape: \<open>\d\<close> is not \<open>[0-9]\<close>, so ten
  Arabic-Indic digits are a valid phone for the code.
\<close>

lemma validate_phone_other_digits:
  "validate_phone arabic_indic_phone = True \<and>
   exactly_ten_digits (clean_phone arabic_indic_phone) = False"
  by code_simp

text \<open>
  C5. Claimed: phone validation accepts an input if and only if, once spaces and hyphens
  are stripped, it is exactly ten decimal digits. The code accepts one more shape: ten
  digits followed by a single newline, because \<open>$\<close> also matches before a final newline.
  At the input of ten digits and a newline the stripped text has eleven characters and is
  not ten digits, yet \<open>validate_phone\<close> returns \<open>True\<close>.
\<close>

theorem validate_phone_trailing_newline:
  "validate_phone (str ''1234567890'' @ [0x0A]) = True \<and>
   clean_phone (str ''1234567890'' @ [0x0A]) = str ''1234567890'' @ [0x0A] \<and>
   exactly_ten_digits (clean_phone (str ''1234567890'' @ [0x0A])) = False"
  by code_simp

text \<open>
  C6. Normalisation is idempotent, and the three spellings of 555 123 4567 (with hyphens,
  with spaces, bare) normalise to the same key.
\<close>

theorem clean_phone_idempotent:
  "clean_phone (clean_phone p) = clean_phone p \<and>
   clean_phone (str ''555-123-4567'') = str ''5551234567'' \<and>
   clean_phone (str ''555 123 4567'') = str ''5551234567'' \<and>
   clean_phone (str ''5551234567'') = str ''5551234567''"
proof -
  have "clean_phone (str ''555-123-4567'') = str ''5551234567''"
    and "clean_phone (str ''555 123 4567'') = str ''5551234567''"
    and "clean_phone (str ''5551234567'') = str ''5551234567''"
    by code_simp+
  then show ?thesis by (simp add: clean_phone_idem)
qed

section \<open>The store\<close>

lemma update_absent: "map_of al k = None \<Longrightarrow> AList.update k v al = al @ [(k, v)]"
  by (induction al) (auto split: if_splits)

lemma update_values_subset: "set (map snd (AList.update k v al)) \<subseteq> insert v (set (map snd al))"
  by (induction al) auto

lemma update_values_distinct:
  "distinct (map snd al) \<Longrightarrow> v \<notin> set (map snd al) \<Longrightarrow> distinct (map snd (AList.update k v al))"
proof (induction al)
  case Nil
  then show ?case by simp
next
  case (Cons x al)
  have "snd x \<notin> set (map snd (AList.update k v al))"
    using Cons.prems update_values_subset[of k v al] by auto
  with Cons show ?case by auto
qed

lemma length_update: "length (AList.update k v al) = (if map_of al k = None then Suc (length al) else length al)"
  by (induction al) auto

lemma map_of_ref_in_values: "map_of al k = Some a \<Longrightarrow> a \<in> set (map snd al)"
  by (induction al) (auto split: if_splits)

lemma wf_empty_state: "wf empty_state"
  by (simp add: wf_def empty_state_def)

lemma wf_ref_in_heap: "wf s \<Longrightarrow> map_of (patients_db s) k = Some a \<Longrightarrow> a < length (heap s)"
  by (auto simp: wf_def list_all_iff dest!: map_of_ref_in_values)

lemma wf_save_patient:
  assumes "wf s" shows "wf (snd (save_patient p s))"
proof -
  let ?n = "length (heap s)"
  from assms have fresh: "?n \<notin> set (map snd (patients_db s))"
    by (auto simp: wf_def list_all_iff)
  have "distinct (map fst (AList.update (phone p) ?n (patients_db s)))"
    using assms by (simp add: wf_def distinct_update)
  moreover have "distinct (map snd (AList.update (phone p) ?n (patients_db s)))"
    using assms fresh by (simp add: wf_def update_values_distinct)
  moreover have "list_all (\<lambda>a. a < Suc ?n) (map snd (AList.update (phone p) ?n (patients_db s)))"
    unfolding list_all_iff
  proof
    fix a
    assume "a \<in> set (map snd (AList.update (phone p) ?n (patients_db s)))"
    then have "a = ?n \<or> a \<in> set (map snd (patients_db s))"
      using update_values_subset[of "phone p" ?n "patients_db s"] by blast
    then show "a < Suc ?n"
      using assms by (auto simp: wf_def list_all_iff)
  qed
  ultimately show ?thesis by (simp add: wf_def save_patient_def)
qed

lemma count_save_patient:
  "get_total_patients (snd (save_patient p s)) =
     (if get_patient_by_phone (phone p) s = None then get_total_patients s + 1
      else get_total_patients s)"
  by (simp add: get_total_patients_def save_patient_def get_patient_by_phone_def length_update)

lemma found_by_phone_save_patient:
  assumes "wf s"
  shows "found_by_phone k (snd (save_patient p s)) =
           (if k = phone p then Some p else found_by_phone k s)"
proof (cases "k = phone p")
  case True
  then show ?thesis
    by (simp add: found_by_phone_def get_patient_by_phone_def save_patient_def update_conv')
next
  case False
  show ?thesis
  proof (cases "map_of (patients_db s) k")
    case None
    with False show ?thesis
      by (simp add: found_by_phone_def get_patient_by_phone_def save_patient_def update_conv')
  next
    case (Some a)
    with assms have "a < length (heap s)" by (rule wf_ref_in_heap)
    with False Some show ?thesis
      by (simp add: found_by_phone_def get_patient_by_phone_def save_patient_def update_conv'
          nth_append)
  qed
qed

lemma first_with_id_append:
  "first_with_id h (as @ bs) hid =
     (case first_with_id h as hid of Some a \<Rightarrow> Some a | None \<Rightarrow> first_with_id h bs hid)"
  by (induction as) auto

lemma first_with_id_heap_append:
  "list_all (\<lambda>a. a < length h) as \<Longrightarrow> first_with_id (h @ [p]) as hid = first_with_id h as hid"
  by (induction as) (auto simp: nth_append)

lemma first_with_id_None:
  "first_with_id h as hid = None \<longleftrightarrow> hid \<notin> set (map (\<lambda>a. hospital_id (h ! a)) as)"
  by (induction as) auto

lemma first_with_id_Some:
  "first_with_id h as hid = Some a \<Longrightarrow> a \<in> set as \<and> hospital_id (h ! a) = hid"
  by (induction as) (auto split: if_splits)

lemma found_by_id_None: "found_by_id hid s = None \<longleftrightarrow> hid \<notin> set (stored_ids s)"
  by (simp add: found_by_id_def get_patient_by_id_def stored_ids_def first_with_id_None)

lemma found_by_id_save_new:
  assumes "wf s" and "get_patient_by_phone (phone p) s = None"
  shows "found_by_id hid (snd (save_patient p s)) =
           (case found_by_id hid s of Some q \<Rightarrow> Some q
            | None \<Rightarrow> if hospital_id p = hid then Some p else None)"
proof -
  from assms(2) have db: "AList.update (phone p) (length (heap s)) (patients_db s)
      = patients_db s @ [(phone p, length (heap s))]"
    by (simp add: get_patient_by_phone_def update_absent)
  from assms(1) have inb: "list_all (\<lambda>a. a < length (heap s)) (map snd (patients_db s))"
    by (simp add: wf_def)
  show ?thesis
  proof (cases "first_with_id (heap s) (map snd (patients_db s)) hid")
    case None
    then show ?thesis
      using inb by (simp add: found_by_id_def get_patient_by_id_def save_patient_def db
          first_with_id_append first_with_id_heap_append)
  next
    case (Some a)
    then have "a \<in> set (map snd (patients_db s))" by (auto dest: first_with_id_Some)
    with inb have "a < length (heap s)" by (auto simp: list_all_iff)
    with Some show ?thesis
      using inb by (simp add: found_by_id_def get_patient_by_id_def save_patient_def db
          first_with_id_append first_with_id_heap_append nth_append)
  qed
qed

lemma stored_ids_save_new:
  assumes "wf s" and "get_patient_by_phone (phone p) s = None"
  shows "stored_ids (snd (save_patient p s)) = stored_ids s @ [hospital_id p]"
    and "map fst (patients_db (snd (save_patient p s))) = map fst (patients_db s) @ [phone p]"
proof -
  from assms(2) have db: "AList.update (phone p) (length (heap s)) (patients_db s)
      = patients_db s @ [(phone p, length (heap s))]"
    by (simp add: get_patient_by_phone_def update_absent)
  from assms(1) have inb: "\<forall>a \<in> set (map snd (patients_db s)). a < length (heap s)"
    by (simp add: wf_def list_all_iff)
  then show "stored_ids (snd (save_patient p s)) = stored_ids s @ [hospital_id p]"
    by (simp add: stored_ids_def save_patient_def db nth_append)
  show "map fst (patients_db (snd (save_patient p s))) = map fst (patients_db s) @ [phone p]"
    by (simp add: save_patient_def db)
qed

text \<open>What a run of the registration form does to the store.\<close>

lemma registration_cases:
  "render_patient_registration submitted f uuid4 s =
     (if submitted \<and> registration_errors f = [] \<and>
         get_patient_by_phone (clean_phone (phone_input f)) s = None
      then (Registered (generate_hospital_id uuid4), snd (save_patient (registered_record f uuid4) s))
      else (if \<not> submitted then NotSubmitted
            else if registration_errors f \<noteq> [] then ValidationErrors (registration_errors f)
            else DuplicateKey, s))"
  by (simp add: render_patient_registration_def Let_def registered_record_def save_patient_def)



section \<open>Validation\<close>

text \<open>
  C9. Registration validation is not fail-fast: each of the checks on name, age, gender,
  phone and address adds its message exactly when it fails, whatever the other fields
  hold, and a submission with any message is answered with the whole list, which depends
  on the submitted fields only (not on the store, not on the UUID).
\<close>

theorem registration_reports_every_failed_check:
  "(''Name is required'' \<in> set (registration_errors f)) = (strip (name_input f) = []) \<and>
   (''Valid age is required'' \<in> set (registration_errors f)) = (age_input f \<le> 0) \<and>
   (''Gender selection is required'' \<in> set (registration_errors f)) = (gender_input f = []) \<and>
   (''Phone number is required'' \<in> set (registration_errors f)) = (strip (phone_input f) = []) \<and>
   (''Please enter a valid 10-digit phone number'' \<in> set (registration_errors f)) =
      (strip (phone_input f) \<noteq> [] \<and> \<not> validate_phone (phone_input f)) \<and>
   (''Address is required'' \<in> set (registration_errors f)) = (strip (address_input f) = []) \<and>
   (registration_errors f \<noteq> [] \<longrightarrow>
      render_patient_registration True f uuid4 s = (ValidationErrors (registration_errors f), s))"
proof -
  have "set (registration_errors f) =
     (if strip (name_input f) = [] then {''Name is required''} else {}) \<union>
     (if age_input f \<le> 0 then {''Valid age is required''} else {}) \<union>
     (if gender_input f = [] then {''Gender selection is required''} else {}) \<union>
     (if strip (phone_input f) = [] then {''Phone number is required''}
      else if \<not> validate_phone (phone_input f)
      then {''Please enter a valid 10-digit phone number''} else {}) \<union>
     (if strip (address_input f) = [] then {''Address is required''} else {})"
    by (simp add: registration_errors_def Let_def)
  moreover have "registration_errors f \<noteq> [] \<longrightarrow>
      render_patient_registration True f uuid4 s = (ValidationErrors (registration_errors f), s)"
    by (simp add: registration_cases)
  ultimately show ?thesis by simp
qed

theorem registration_reports_every_failed_check_witness:
  "registration_errors all_wrong \<noteq> [] \<and>
   render_patient_registration True all_wrong jane_uuid empty_state =
     (ValidationErrors (registration_errors all_wrong), empty_state) \<and>
   registration_errors all_wrong =
     [''Name is required'', ''Valid age is required'', ''Gender selection is required'',
      ''Please enter a valid 10-digit phone number'', ''Address is required'']"
proof -
  have e: "registration_errors all_wrong =
     [''Name is required'', ''Valid age is required'', ''Gender selection is required'',
      ''Please enter a valid 10-digit phone number'', ''Address is required'']"
    by code_simp
  then have "registration_errors all_wrong \<noteq> []" by simp
  with registration_reports_every_failed_check [of all_wrong jane_uuid empty_state] e
  show ?thesis by simp
qed

text \<open>
  C7. The age of both forms comes from \<open>number_input\<close> with the bounds 0 and 150 and then
  passes the check \<open>age <= 0\<close>. With the other fields valid, the ages accepted are
  exactly the integers 1 to 150: 0 is delivered by the widget and rejected by the check,
  1 and 150 are accepted, and 151 is not delivered by the widget. Within the widget's
  range the validation alone decides the same, and it reports the age message exactly
  for an age of 0 or less.
\<close>

theorem age_accepted_from_1_to_150:
  assumes "registration_errors (f\<lparr>age_input := 1\<rparr>) = []"
      and "update_errors (g\<lparr>updated_age := 1\<rparr>) = []"
  shows "registration_accepts_age f a = (1 \<le> a \<and> a \<le> 150) \<and>
         update_accepts_age g a = (1 \<le> a \<and> a \<le> 150) \<and>
         (0 \<le> a \<and> a \<le> 150 \<longrightarrow>
            (registration_errors (f\<lparr>age_input := a\<rparr>) = []) = (1 \<le> a \<and> a \<le> 150) \<and>
            (update_errors (g\<lparr>updated_age := a\<rparr>) = []) = (1 \<le> a \<and> a \<le> 150)) \<and>
         (''Valid age is required'' \<in> set (registration_errors f)) = (age_input f \<le> 0) \<and>
         (''Valid age is required'' \<in> set (update_errors g)) = (updated_age g \<le> 0)"
proof -
  have r: "(registration_errors (f\<lparr>age_input := b\<rparr>) = []) = (1 \<le> b)" for b
    using assms(1) by (auto simp: registration_errors_def Let_def split: if_splits)
  have u: "(update_errors (g\<lparr>updated_age := b\<rparr>) = []) = (1 \<le> b)" for b
    using assms(2) by (auto simp: update_errors_def Let_def split: if_splits)
  have m: "(''Valid age is required'' \<in> set (registration_errors f)) = (age_input f \<le> 0)"
    by (simp add: registration_errors_def Let_def)
  have n: "(''Valid age is required'' \<in> set (update_errors g)) = (updated_age g \<le> 0)"
    by (simp add: update_errors_def Let_def)
  have "registration_accepts_age f a = (1 \<le> a \<and> a \<le> 150)"
    by (auto simp: registration_accepts_age_def number_input_def r)
  moreover have "update_accepts_age g a = (1 \<le> a \<and> a \<le> 150)"
    by (auto simp: update_accepts_age_def number_input_def u)
  ultimately show ?thesis using r u m n by simp
qed

theorem age_accepted_from_1_to_150_witness:
  "registration_errors (jane\<lparr>age_input := 1\<rparr>) = [] \<and>
   update_errors (jane_edit\<lparr>updated_age := 1\<rparr>) = [] \<and>
   \<not> registration_accepts_age jane 0 \<and> registration_accepts_age jane 1 \<and>
   registration_accepts_age jane 150 \<and> \<not> registration_accepts_age jane 151 \<and>
   \<not> update_accepts_age jane_edit 0 \<and> update_accepts_age jane_edit 1 \<and>
   update_accepts_age jane_edit 150 \<and> \<not> update_accepts_age jane_edit 151 \<and>
   number_input 0 150 0 = Some 0 \<and> number_input 0 150 151 = None"
proof -
  have r: "registration_errors (jane\<lparr>age_input := 1\<rparr>) = []" by code_simp
  have u: "update_errors (jane_edit\<lparr>updated_age := 1\<rparr>) = []" by code_simp
  note t = age_accepted_from_1_to_150 [OF r u]
  from t [of 0] t [of 1] t [of 150] t [of 151] r u
  show ?thesis by (simp add: number_input_def)
qed

text \<open>
  C8. Claimed: an input such as 555-12-34567 is an invalid format and never reaches the
  store. Its hyphens are stripped wherever they stand, the ten digits 5551234567 remain,
  and the input is valid: the lookup goes to the store and the registration creates a
  record.
\<close>

theorem hyphens_anywhere_are_accepted:
  "clean_phone (str ''555-12-34567'') = str ''5551234567'' \<and>
   validate_phone (str ''555-12-34567'') \<and>
   (\<forall>str_upper.
      render_patient_lookup str_upper True PhoneNumber (str ''555-12-34567'') None empty_state
        = (NotFound, empty_state)) \<and>
   fst (render_patient_registration True (jane\<lparr>phone_input := str ''555-12-34567''\<rparr>)
          jane_uuid empty_state) = Registered (str ''HSP-3F2A9C1E'') \<and>
   get_total_patients
     (snd (render_patient_registration True (jane\<lparr>phone_input := str ''555-12-34567''\<rparr>)
             jane_uuid empty_state)) = 1"
proof -
  have "render_patient_lookup str_upper True PhoneNumber (str ''555-12-34567'') None empty_state
        = (NotFound, empty_state)" for str_upper
    by code_simp
  moreover have "clean_phone (str ''555-12-34567'') = str ''5551234567''"
    and "validate_phone (str ''555-12-34567'')"
    and "fst (render_patient_registration True (jane\<lparr>phone_input := str ''555-12-34567''\<rparr>)
          jane_uuid empty_state) = Registered (str ''HSP-3F2A9C1E'')"
    and "get_total_patients
     (snd (render_patient_registration True (jane\<lparr>phone_input := str ''555-12-34567''\<rparr>)
             jane_uuid empty_state)) = 1"
    by code_simp+
  ultimately show ?thesis by blast
qed

text \<open>
  C8, as the code has it: take an input that holds no newline and no decimal digit other
  than 0 to 9, and that without its spaces and hyphens is not exactly ten digits. A
  registration with that phone is answered with the validation messages, among them the
  phone's (that it is required when the input is blank, that it is invalid otherwise);
  a phone lookup of that input is answered with the invalid-phone message, or with
  nothing when the input is empty, since an empty search value starts no search. Both
  answers are the same for every store and leave the store as it was.
\<close>

theorem invalid_phone_never_reaches_store:
  assumes "\<not> exactly_ten_digits (clean_phone p)"
      and "0x0A \<notin> set p" and "\<not> has_other_decimal_digit p"
  shows "render_patient_registration True (f\<lparr>phone_input := p\<rparr>) uuid4 s
           = (ValidationErrors (registration_errors (f\<lparr>phone_input := p\<rparr>)), s) \<and>
         (if strip p = [] then ''Phone number is required''
          else ''Please enter a valid 10-digit phone number'')
           \<in> set (registration_errors (f\<lparr>phone_input := p\<rparr>)) \<and>
         render_patient_lookup str_upper True PhoneNumber p upd s
           = (if p = [] then NoSearch else InvalidPhone, s)"
proof -
  let ?f = "f\<lparr>phone_input := p\<rparr>"
  from assms have nv: "\<not> validate_phone p"
    by (simp add: validate_phone_iff_plain_text)
  then have msg: "(if strip p = [] then ''Phone number is required''
            else ''Please enter a valid 10-digit phone number'') \<in> set (registration_errors ?f)"
    by (simp add: registration_errors_def Let_def)
  then have "registration_errors ?f \<noteq> []"
    by (metis empty_iff empty_set)
  then have reg: "render_patient_registration True ?f uuid4 s
      = (ValidationErrors (registration_errors ?f), s)"
    by (simp add: registration_cases)
  have "render_patient_lookup str_upper True PhoneNumber p upd s
          = (if p = [] then NoSearch else InvalidPhone, s)"
    using nv
    by (simp add: render_patient_lookup_def search_patient_def Let_def validate_phone_clean)
  with msg reg show ?thesis by simp
qed

theorem invalid_phone_never_reaches_store_witness:
  "\<not> exactly_ten_digits (clean_phone (str ''12345'')) \<and> 0x0A \<notin> set (str ''12345'') \<and>
   \<not> has_other_decimal_digit (str ''12345'') \<and>
   render_patient_registration True (jane\<lparr>phone_input := str ''12345''\<rparr>) jane_uuid
     (snd (render_patient_registration True ann ann_uuid empty_state))
     = (ValidationErrors [''Please enter a valid 10-digit phone number''],
        snd (render_patient_registration True ann ann_uuid empty_state)) \<and>
   (\<forall>str_upper.
      render_patient_lookup str_upper True PhoneNumber (str ''12345'') None
        (snd (render_patient_registration True ann ann_uuid empty_state))
        = (InvalidPhone, snd (render_patient_registration True ann ann_uuid empty_state)))"
proof -
  let ?s = "snd (render_patient_registration True ann ann_uuid empty_state)"
  have a: "\<not> exactly_ten_digits (clean_phone (str ''12345''))" by code_simp
  have b: "0x0A \<notin> set (str ''12345'')" by code_simp
  have c: "\<not> has_other_decimal_digit (str ''12345'')" by code_simp
  have e: "registration_errors (jane\<lparr>phone_input := str ''12345''\<rparr>)
             = [''Please enter a valid 10-digit phone number'']" by code_simp
  have n: "str ''12345'' \<noteq> []" by code_simp
  have "render_patient_registration True (jane\<lparr>phone_input := str ''12345''\<rparr>) jane_uuid ?s
     = (ValidationErrors [''Please enter a valid 10-digit phone number''], ?s)"
    using invalid_phone_never_reaches_store [OF a b c, of jane jane_uuid ?s] e by simp
  moreover have "render_patient_lookup str_upper True PhoneNumber (str ''12345'') None ?s
        = (InvalidPhone, ?s)" for str_upper
    using invalid_phone_never_reaches_store [OF a b c, of jane jane_uuid ?s str_upper None] n
    by simp
  ultimately show ?thesis using a b c by blast
qed

section \<open>Registration\<close>

lemma wf_registration:
  "wf s \<Longrightarrow> wf (snd (render_patient_registration submitted f uuid4 s))"
  by (simp add: registration_cases wf_save_patient)

lemma found_by_phone_registration:
  assumes "wf s" and "found_by_phone k s = Some q"
  shows "found_by_phone k (snd (render_patient_registration submitted f uuid4 s)) = Some q"
proof -
  have "k \<noteq> clean_phone (phone_input f)"
    if "get_patient_by_phone (clean_phone (phone_input f)) s = None"
    using that assms(2) by (auto simp: found_by_phone_def)
  then show ?thesis
    using assms by (simp add: registration_cases found_by_phone_save_patient registered_record_def)
qed

lemma found_by_id_registration:
  assumes "wf s" and "found_by_id hid s = Some q"
  shows "found_by_id hid (snd (render_patient_registration submitted f uuid4 s)) = Some q"
  using assms by (simp add: registration_cases found_by_id_save_new registered_record_def)

lemma found_register_all:
  assumes "wf s"
  shows "(found_by_phone k s = Some q \<longrightarrow> found_by_phone k (snd (register_all regs s)) = Some q) \<and>
         (found_by_id hid s = Some q' \<longrightarrow> found_by_id hid (snd (register_all regs s)) = Some q')"
  using assms
proof (induction regs arbitrary: s)
  case Nil
  then show ?case by simp
next
  case (Cons x regs)
  obtain f u where x: "x = (f, u)" by (cases x)
  let ?s1 = "snd (render_patient_registration True f u s)"
  from Cons.prems have wf1: "wf ?s1" by (rule wf_registration)
  have step: "snd (register_all (x # regs) s) = snd (register_all regs ?s1)"
    by (simp add: x split_beta Let_def)
  show ?case
    unfolding step
    using Cons.IH [OF wf1] found_by_phone_registration [OF Cons.prems]
      found_by_id_registration [OF Cons.prems]
    by blast
qed

lemma register_all_main:
  assumes "wf s"
    and "list_all (\<lambda>(f, u). registration_errors f = []) regs"
    and "distinct (map (\<lambda>(f, u). clean_phone (phone_input f)) regs)"
    and "set (map (\<lambda>(f, u). clean_phone (phone_input f)) regs) \<inter> set (map fst (patients_db s)) = {}"
    and "distinct (map (\<lambda>(f, u). generate_hospital_id u) regs)"
    and "set (map (\<lambda>(f, u). generate_hospital_id u) regs) \<inter> set (stored_ids s) = {}"
  shows "fst (register_all regs s) = map (\<lambda>(f, u). Registered (generate_hospital_id u)) regs \<and>
         get_total_patients (snd (register_all regs s)) = get_total_patients s + length regs \<and>
         (\<forall>(f, u) \<in> set regs.
            found_by_phone (clean_phone (phone_input f)) (snd (register_all regs s))
              = Some (registered_record f u) \<and>
            found_by_id (generate_hospital_id u) (snd (register_all regs s))
              = Some (registered_record f u))"
  using assms
proof (induction regs arbitrary: s)
  case Nil
  then show ?case by simp
next
  case (Cons x regs)
  obtain f u where x: "x = (f, u)" by (cases x)
  let ?k = "clean_phone (phone_input f)"
  let ?p = "registered_record f u"
  let ?s1 = "snd (save_patient ?p s)"
  have pk: "phone ?p = ?k" and pid: "hospital_id ?p = generate_hospital_id u"
    by (simp_all add: registered_record_def)
  from Cons.prems(2) have valid: "registration_errors f = []" by (simp add: x)
  from Cons.prems(4) have "?k \<notin> set (map fst (patients_db s))" by (simp add: x)
  then have absent: "get_patient_by_phone ?k s = None"
    by (simp add: get_patient_by_phone_def map_of_eq_None_iff)
  have step: "render_patient_registration True f u s = (Registered (generate_hospital_id u), ?s1)"
    using valid absent by (simp add: registration_cases)
  have wf1: "wf ?s1" using Cons.prems(1) by (rule wf_save_patient)
  have keys1: "map fst (patients_db ?s1) = map fst (patients_db s) @ [?k]"
    and ids1: "stored_ids ?s1 = stored_ids s @ [generate_hospital_id u]"
    using stored_ids_save_new [OF Cons.prems(1), of ?p] absent by (simp_all add: pk pid)
  have ih: "fst (register_all regs ?s1) = map (\<lambda>(f, u). Registered (generate_hospital_id u)) regs \<and>
         get_total_patients (snd (register_all regs ?s1)) = get_total_patients ?s1 + length regs \<and>
         (\<forall>(f, u) \<in> set regs.
            found_by_phone (clean_phone (phone_input f)) (snd (register_all regs ?s1))
              = Some (registered_record f u) \<and>
            found_by_id (generate_hospital_id u) (snd (register_all regs ?s1))
              = Some (registered_record f u))"
  proof (rule Cons.IH [OF wf1])
    show "list_all (\<lambda>(f, u). registration_errors f = []) regs"
      using Cons.prems(2) by simp
    show "distinct (map (\<lambda>(f, u). clean_phone (phone_input f)) regs)"
      using Cons.prems(3) by simp
    show "set (map (\<lambda>(f, u). clean_phone (phone_input f)) regs) \<inter> set (map fst (patients_db ?s1)) = {}"
      using Cons.prems(3,4) by (auto simp: keys1 x)
    show "distinct (map (\<lambda>(f, u). generate_hospital_id u) regs)"
      using Cons.prems(5) by simp
    show "set (map (\<lambda>(f, u). generate_hospital_id u) regs) \<inter> set (stored_ids ?s1) = {}"
      using Cons.prems(5,6) by (auto simp: ids1 x)
  qed
  have all: "register_all (x # regs) s =
      (Registered (generate_hospital_id u) # fst (register_all regs ?s1), snd (register_all regs ?s1))"
    by (simp add: x step split_beta)
  have cnt1: "get_total_patients ?s1 = get_total_patients s + 1"
    using absent by (simp add: count_save_patient pk)
  have ph1: "found_by_phone ?k ?s1 = Some ?p"
    using Cons.prems(1) by (simp add: found_by_phone_save_patient pk)
  from Cons.prems(6) have "generate_hospital_id u \<notin> set (stored_ids s)" by (simp add: x)
  then have "found_by_id (generate_hospital_id u) s = None" by (simp add: found_by_id_None)
  then have id1: "found_by_id (generate_hospital_id u) ?s1 = Some ?p"
    using Cons.prems(1) absent by (simp add: found_by_id_save_new pk pid)
  from found_register_all [OF wf1, where k = ?k and q = ?p and hid = "generate_hospital_id u"
      and q' = ?p and regs = regs] ph1 id1
  have head: "found_by_phone ?k (snd (register_all regs ?s1)) = Some ?p \<and>
              found_by_id (generate_hospital_id u) (snd (register_all regs ?s1)) = Some ?p"
    by blast
  from ih head cnt1 show ?case
    unfolding all by (simp add: x)
qed

lemma register_all_phone:
  assumes "wf s"
    and "list_all (\<lambda>(f, u). registration_errors f = []) regs"
    and "distinct (map (\<lambda>(f, u). clean_phone (phone_input f)) regs)"
    and "set (map (\<lambda>(f, u). clean_phone (phone_input f)) regs) \<inter> set (map fst (patients_db s)) = {}"
  shows "fst (register_all regs s) = map (\<lambda>(f, u). Registered (generate_hospital_id u)) regs \<and>
         get_total_patients (snd (register_all regs s)) = get_total_patients s + length regs \<and>
         (\<forall>(f, u) \<in> set regs.
            found_by_phone (clean_phone (phone_input f)) (snd (register_all regs s))
              = Some (registered_record f u))"
  using assms
proof (induction regs arbitrary: s)
  case Nil
  then show ?case by simp
next
  case (Cons x regs)
  obtain f u where x: "x = (f, u)" by (cases x)
  let ?k = "clean_phone (phone_input f)"
  let ?p = "registered_record f u"
  let ?s1 = "snd (save_patient ?p s)"
  have pk: "phone ?p = ?k" by (simp add: registered_record_def)
  from Cons.prems(2) have valid: "registration_errors f = []" by (simp add: x)
  from Cons.prems(4) have "?k \<notin> set (map fst (patients_db s))" by (simp add: x)
  then have absent: "get_patient_by_phone ?k s = None"
    by (simp add: get_patient_by_phone_def map_of_eq_None_iff)
  have step: "render_patient_registration True f u s = (Registered (generate_hospital_id u), ?s1)"
    using valid absent by (simp add: registration_cases)
  have wf1: "wf ?s1" using Cons.prems(1) by (rule wf_save_patient)
  have keys1: "map fst (patients_db ?s1) = map fst (patients_db s) @ [?k]"
    using stored_ids_save_new(2) [OF Cons.prems(1), of ?p] absent by (simp add: pk)
  have ih: "fst (register_all regs ?s1) = map (\<lambda>(f, u). Registered (generate_hospital_id u)) regs \<and>
         get_total_patients (snd (register_all regs ?s1)) = get_total_patients ?s1 + length regs \<and>
         (\<forall>(f, u) \<in> set regs.
            found_by_phone (clean_phone (phone_input f)) (snd (register_all regs ?s1))
              = Some (registered_record f u))"
  proof (rule Cons.IH [OF wf1])
    show "list_all (\<lambda>(f, u). registration_errors f = []) regs"
      using Cons.prems(2) by simp
    show "distinct (map (\<lambda>(f, u). clean_phone (phone_input f)) regs)"
      using Cons.prems(3) by simp
    show "set (map (\<lambda>(f, u). clean_phone (phone_input f)) regs) \<inter> set (map fst (patients_db ?s1)) = {}"
      using Cons.prems(3,4) by (auto simp: keys1 x)
  qed
  have all: "register_all (x # regs) s =
      (Registered (generate_hospital_id u) # fst (register_all regs ?s1), snd (register_all regs ?s1))"
    by (simp add: x step split_beta)
  have cnt1: "get_total_patients ?s1 = get_total_patients s + 1"
    using absent by (simp add: count_save_patient pk)
  have ph1: "found_by_phone ?k ?s1 = Some ?p"
    using Cons.prems(1) by (simp add: found_by_phone_save_patient pk)
  from found_register_all [OF wf1, where k = ?k and q = ?p and regs = regs] ph1
  have head: "found_by_phone ?k (snd (register_all regs ?s1)) = Some ?p"
    by blast
  from ih head cnt1 show ?case
    unfolding all by (simp add: x)
qed

text \<open>
  C4. Claimed: in every sequence of valid registrations with pairwise distinct normalised
  phones each registration adds one to the count and each record can then be found by its
  phone and by its generated hospital ID. The ID is \<open>HSP-\<close> and the first eight characters
  of a random UUID, and nothing checks it against the IDs in the store: when two UUIDs
  agree in those characters, the lookup by ID returns the earlier record, not the later.
\<close>

theorem colliding_ids_hide_the_later_record:
  "registration_errors ann = [] \<and> registration_errors bob = [] \<and>
   clean_phone (phone_input ann) \<noteq> clean_phone (phone_input bob) \<and>
   fst (register_all [(ann, ann_uuid), (bob, twin_uuid)] empty_state)
     = [Registered (str ''HSP-0A0A0A0A''), Registered (str ''HSP-0A0A0A0A'')] \<and>
   found_by_id (generate_hospital_id twin_uuid)
     (snd (register_all [(ann, ann_uuid), (bob, twin_uuid)] empty_state))
     = Some (registered_record ann ann_uuid) \<and>
   registered_record ann ann_uuid \<noteq> registered_record bob twin_uuid"
  by code_simp

text \<open>
  C4, as the code has it: from a well-formed store, for every sequence of valid
  registrations whose normalised phones are pairwise distinct and not yet keys of the
  store, every registration succeeds, after the first \<open>n\<close> of them the count has grown by
  exactly \<open>n\<close>, and at the end each registered record is found by its normalised phone;
  when moreover the generated hospital IDs are pairwise distinct and not yet in the store,
  each registered record is found by its hospital ID as well.
\<close>

theorem distinct_registrations_are_counted_and_retrievable:
  assumes "wf s"
    and "list_all (\<lambda>(f, u). registration_errors f = []) regs"
    and "distinct (map (\<lambda>(f, u). clean_phone (phone_input f)) regs)"
    and "set (map (\<lambda>(f, u). clean_phone (phone_input f)) regs) \<inter> set (map fst (patients_db s)) = {}"
  shows "fst (register_all regs s) = map (\<lambda>(f, u). Registered (generate_hospital_id u)) regs \<and>
         (\<forall>n \<le> length regs.
            get_total_patients (snd (register_all (take n regs) s)) = get_total_patients s + n) \<and>
         (\<forall>(f, u) \<in> set regs.
            found_by_phone (clean_phone (phone_input f)) (snd (register_all regs s))
              = Some (registered_record f u)) \<and>
         (distinct (map (\<lambda>(f, u). generate_hospital_id u) regs) \<and>
          set (map (\<lambda>(f, u). generate_hospital_id u) regs) \<inter> set (stored_ids s) = {} \<longrightarrow>
          (\<forall>(f, u) \<in> set regs.
             found_by_id (generate_hospital_id u) (snd (register_all regs s))
               = Some (registered_record f u)))"
proof -
  have count: "get_total_patients (snd (register_all (take n regs) s)) = get_total_patients s + n"
    if "n \<le> length regs" for n
  proof -
    have sub: "set (take n regs) \<subseteq> set regs" by (rule set_take_subset)
    have "get_total_patients (snd (register_all (take n regs) s))
            = get_total_patients s + length (take n regs)"
    proof (rule register_all_phone [THEN conjunct2, THEN conjunct1])
      show "wf s" by (rule assms(1))
      show "list_all (\<lambda>(f, u). registration_errors f = []) (take n regs)"
        using assms(2) sub by (auto simp: list_all_iff)
      show "distinct (map (\<lambda>(f, u). clean_phone (phone_input f)) (take n regs))"
        using assms(3) by (simp add: take_map [symmetric])
      show "set (map (\<lambda>(f, u). clean_phone (phone_input f)) (take n regs))
              \<inter> set (map fst (patients_db s)) = {}"
        using assms(4) sub by auto
    qed
    with that show ?thesis by simp
  qed
  have ids: "\<forall>(f, u) \<in> set regs.
             found_by_id (generate_hospital_id u) (snd (register_all regs s))
               = Some (registered_record f u)"
    if "distinct (map (\<lambda>(f, u). generate_hospital_id u) regs)"
      and "set (map (\<lambda>(f, u). generate_hospital_id u) regs) \<inter> set (stored_ids s) = {}"
    using register_all_main [OF assms that] by blast
  from register_all_phone [OF assms] count ids show ?thesis by blast
qed

theorem distinct_registrations_are_counted_and_retrievable_witness:
  "wf empty_state \<and>
   fst (register_all [(ann, ann_uuid), (bob, bob_uuid)] empty_state)
     = [Registered (str ''HSP-0A0A0A0A''), Registered (str ''HSP-0B0B0B0B'')] \<and>
   get_total_patients (snd (register_all (take 1 [(ann, ann_uuid), (bob, bob_uuid)]) empty_state)) = 1 \<and>
   get_total_patients (snd (register_all (take 2 [(ann, ann_uuid), (bob, bob_uuid)]) empty_state)) = 2 \<and>
   found_by_phone (str ''1111111111'')
     (snd (register_all [(ann, ann_uuid), (bob, bob_uuid)] empty_state))
     = Some (registered_record ann ann_uuid) \<and>
   found_by_id (str ''HSP-0B0B0B0B'')
     (snd (register_all [(ann, ann_uuid), (bob, bob_uuid)] empty_state))
     = Some (registered_record bob bob_uuid)"
proof -
  let ?regs = "[(ann, ann_uuid), (bob, bob_uuid)]"
  have h1: "wf empty_state" by (rule wf_empty_state)
  have h2: "list_all (\<lambda>(f, u). registration_errors f = []) ?regs" by code_simp
  have h3: "distinct (map (\<lambda>(f, u). clean_phone (phone_input f)) ?regs)" by code_simp
  have h4: "set (map (\<lambda>(f, u). clean_phone (phone_input f)) ?regs)
              \<inter> set (map fst (patients_db empty_state)) = {}"
    by (simp add: empty_state_def)
  have h5: "distinct (map (\<lambda>(f, u). generate_hospital_id u) ?regs)" by code_simp
  have h6: "set (map (\<lambda>(f, u). generate_hospital_id u) ?regs) \<inter> set (stored_ids empty_state) = {}"
    by (simp add: empty_state_def stored_ids_def)
  have k: "clean_phone (phone_input ann) = str ''1111111111''"
    and i: "generate_hospital_id ann_uuid = str ''HSP-0A0A0A0A''"
           "generate_hospital_id bob_uuid = str ''HSP-0B0B0B0B''"
    and c: "get_total_patients empty_state = 0"
    by code_simp+
  note t = distinct_registrations_are_counted_and_retrievable [OF h1 h2 h3 h4]
  from t have a: "fst (register_all ?regs empty_state)
      = [Registered (str ''HSP-0A0A0A0A''), Registered (str ''HSP-0B0B0B0B'')]"
    by (simp add: i)
  from t have b1: "get_total_patients (snd (register_all (take 1 ?regs) empty_state)) = 1"
    using c by (metis One_nat_def Suc_leI add_0 length_Cons zero_less_Suc)
  from t have b2: "get_total_patients (snd (register_all (take 2 ?regs) empty_state)) = 2"
    using c by (metis add_0 length_Cons list.size(3) One_nat_def Suc_1 le_refl)
  from t have d: "found_by_phone (str ''1111111111'') (snd (register_all ?regs empty_state))
      = Some (registered_record ann ann_uuid)"
    using k by auto
  from t h5 h6 have e: "found_by_id (str ''HSP-0B0B0B0B'') (snd (register_all ?regs empty_state))
      = Some (registered_record bob bob_uuid)"
    using i by auto
  from h1 a b1 b2 d e show ?thesis by blast
qed

section \<open>Duplicate phones\<close>

text \<open>
  C3. Claimed: inserting or registering a record whose phone already keys a record fails
  with DuplicateKey. The store's own insert, \<open>save_patient\<close>, has no such check: on a key
  that is present it returns success and puts the new record in the place of the old.
\<close>

theorem save_patient_overwrites_duplicate:
  "get_patient_by_phone (str ''5550001111'')
     (snd (render_patient_registration True jane jane_uuid empty_state)) = Some 0 \<and>
   phone (registered_record (bob\<lparr>phone_input := str ''555 000 1111''\<rparr>) bob_uuid)
     = str ''5550001111'' \<and>
   fst (save_patient (registered_record (bob\<lparr>phone_input := str ''555 000 1111''\<rparr>) bob_uuid)
          (snd (render_patient_registration True jane jane_uuid empty_state))) = True \<and>
   found_by_phone (str ''5550001111'')
     (snd (save_patient (registered_record (bob\<lparr>phone_input := str ''555 000 1111''\<rparr>) bob_uuid)
             (snd (render_patient_registration True jane jane_uuid empty_state))))
     = Some (registered_record (bob\<lparr>phone_input := str ''555 000 1111''\<rparr>) bob_uuid) \<and>
   found_by_id (str ''HSP-3F2A9C1E'')
     (snd (save_patient (registered_record (bob\<lparr>phone_input := str ''555 000 1111''\<rparr>) bob_uuid)
             (snd (render_patient_registration True jane jane_uuid empty_state))))
     = None"
  by code_simp

text \<open>
  C3, as the code has it: the check is the registration form's. A valid submission whose
  normalised phone already keys a record is answered with DuplicateKey and the store
  stays as it was, so no record is created and the count is unchanged. \<open>save_patient\<close>,
  given the same record, reports success and, in a well-formed store, replaces the
  record under that key; the count is unchanged there too.
\<close>

theorem registration_refuses_duplicate_phone:
  assumes "get_patient_by_phone (clean_phone (phone_input f)) s \<noteq> None"
      and "registration_errors f = []"
  shows "render_patient_registration True f uuid4 s = (DuplicateKey, s) \<and>
         fst (save_patient (registered_record f uuid4) s) = True \<and>
         get_total_patients (snd (save_patient (registered_record f uuid4) s))
           = get_total_patients s \<and>
         (wf s \<longrightarrow>
            found_by_phone (clean_phone (phone_input f))
              (snd (save_patient (registered_record f uuid4) s))
              = Some (registered_record f uuid4))"
proof -
  have pk: "phone (registered_record f uuid4) = clean_phone (phone_input f)"
    by (simp add: registered_record_def)
  have "found_by_phone (clean_phone (phone_input f))
              (snd (save_patient (registered_record f uuid4) s))
              = Some (registered_record f uuid4)" if "wf s"
    using that by (simp add: found_by_phone_save_patient pk)
  moreover have "render_patient_registration True f uuid4 s = (DuplicateKey, s)"
    using assms by (simp add: registration_cases)
  moreover have "fst (save_patient (registered_record f uuid4) s) = True"
    by (simp add: save_patient_def)
  moreover have "get_total_patients (snd (save_patient (registered_record f uuid4) s))
           = get_total_patients s"
    using assms(1) by (simp add: count_save_patient pk)
  ultimately show ?thesis by blast
qed

theorem registration_refuses_duplicate_phone_witness:
  "get_patient_by_phone (clean_phone (str ''555 000 1111''))
     (snd (render_patient_registration True jane jane_uuid empty_state)) \<noteq> None \<and>
   registration_errors (bob\<lparr>phone_input := str ''555 000 1111''\<rparr>) = [] \<and>
   render_patient_registration True (bob\<lparr>phone_input := str ''555 000 1111''\<rparr>) bob_uuid
     (snd (render_patient_registration True jane jane_uuid empty_state))
     = (DuplicateKey, snd (render_patient_registration True jane jane_uuid empty_state))"
proof -
  let ?s = "snd (render_patient_registration True jane jane_uuid empty_state)"
  let ?f = "bob\<lparr>phone_input := str ''555 000 1111''\<rparr>"
  have a: "get_patient_by_phone (clean_phone (phone_input ?f)) ?s \<noteq> None" by code_simp
  have b: "registration_errors ?f = []" by code_simp
  from registration_refuses_duplicate_phone [OF a b, of bob_uuid] a b
  show ?thesis by simp
qed

section \<open>The keys of the store\<close>

lemma keys_update: "set (map fst (AList.update k v al)) = insert k (set (map fst al))"
  by (induction al) auto

lemma keys_delete: "set (map fst (AList.delete k al)) \<subseteq> set (map fst al)"
  by (auto simp: AList.delete_eq)

lemma keys_update_patient: "patients_db (snd (update_patient k u s)) = patients_db s"
  by (simp add: update_patient_def split: option.splits)

lemma db_submit_update:
  "patients_db (snd (submit_update a f s)) = patients_db s \<or>
   (\<exists>k n. patients_db (snd (submit_update a f s))
            = AList.update (clean_phone (updated_phone f)) n (AList.delete k (patients_db s)))"
  by (auto simp: submit_update_def Let_def split_beta keys_update_patient dict_del_def
      split: if_splits option.splits)

lemma keys_submit_update:
  "set (map fst (patients_db (snd (submit_update a f s))))
     \<subseteq> insert (clean_phone (updated_phone f)) (set (map fst (patients_db s)))"
proof -
  from db_submit_update [of a f s] show ?thesis
  proof
    assume "patients_db (snd (submit_update a f s)) = patients_db s"
    then show ?thesis by auto
  next
    assume "\<exists>k n. patients_db (snd (submit_update a f s))
            = AList.update (clean_phone (updated_phone f)) n (AList.delete k (patients_db s))"
    then obtain k n where "patients_db (snd (submit_update a f s))
            = AList.update (clean_phone (updated_phone f)) n (AList.delete k (patients_db s))"
      by blast
    then show ?thesis
      using keys_delete [of k "patients_db s"] by (simp only: keys_update) blast
  qed
qed

lemma keys_lookup:
  "set (map fst (patients_db (snd (render_patient_lookup str_upper b st v upd s))))
     \<subseteq> (case upd of None \<Rightarrow> {} | Some f \<Rightarrow> {clean_phone (updated_phone f)})
       \<union> set (map fst (patients_db s))"
  using keys_submit_update
  by (auto simp: render_patient_lookup_def split: lookup_result.splits option.splits)

lemma keys_registration:
  "set (map fst (patients_db (snd (render_patient_registration b f u s))))
     \<subseteq> insert (clean_phone (phone_input f)) (set (map fst (patients_db s)))"
proof -
  have "patients_db (snd (render_patient_registration b f u s)) = patients_db s \<or>
        patients_db (snd (render_patient_registration b f u s))
          = AList.update (clean_phone (phone_input f)) (length (heap s)) (patients_db s)"
    by (simp add: registration_cases save_patient_def registered_record_def)
  then show ?thesis
  proof
    assume "patients_db (snd (render_patient_registration b f u s)) = patients_db s"
    then show ?thesis by auto
  next
    assume "patients_db (snd (render_patient_registration b f u s))
          = AList.update (clean_phone (phone_input f)) (length (heap s)) (patients_db s)"
    then show ?thesis by (simp only: keys_update subset_refl)
  qed
qed

lemma reachable_keys_clean:
  "reachable s \<Longrightarrow> k \<in> set (map fst (patients_db s)) \<Longrightarrow> clean_phone k = k"
proof (induction arbitrary: k rule: reachable.induct)
  case start
  then show ?case by (simp add: empty_state_def)
next
  case (registration s submitted f uuid4 r s')
  from registration.hyps(2) have "s' = snd (render_patient_registration submitted f uuid4 s)"
    by simp
  with registration.prems keys_registration [of submitted f uuid4 s]
  have "k = clean_phone (phone_input f) \<or> k \<in> set (map fst (patients_db s))" by auto
  then show ?case using registration.IH by (auto simp: clean_phone_idem)
next
  case (lookup s str_upper search_submitted st search_value upd r s')
  from lookup.hyps(2) have "s' = snd (render_patient_lookup str_upper search_submitted st search_value upd s)"
    by simp
  with lookup.prems keys_lookup [of str_upper search_submitted st search_value upd s]
  have "(\<exists>f. upd = Some f \<and> k = clean_phone (updated_phone f)) \<or> k \<in> set (map fst (patients_db s))"
    by (auto split: option.splits)
  then show ?case using lookup.IH by (auto simp: clean_phone_idem)
qed

lemma unclean_differs:
  assumes "0x20 \<in> set p \<or> 0x2D \<in> set p" shows "clean_phone p \<noteq> p"
proof
  assume "clean_phone p = p"
  then have "set p = set p - {0x2D, 0x20}" using clean_phone_set [of p] by simp
  with assms show False by auto
qed

text \<open>
  C10. The store's phone lookup is an exact match on the key and normalises nothing: in
  every store a session can reach the keys hold no space or hyphen, so a phone written
  with a space or a hyphen is not found, whether or not its normalised form is a key.
\<close>

theorem store_lookup_does_not_normalise:
  assumes "reachable s" and "0x20 \<in> set p \<or> 0x2D \<in> set p"
  shows "get_patient_by_phone p s = None"
proof (rule ccontr)
  assume "get_patient_by_phone p s \<noteq> None"
  then have "p \<in> set (map fst (patients_db s))"
    by (simp add: get_patient_by_phone_def map_of_eq_None_iff)
  with assms(1) have "clean_phone p = p" by (rule reachable_keys_clean)
  with unclean_differs [OF assms(2)] show False by simp
qed

theorem store_lookup_does_not_normalise_witness:
  "reachable (snd (render_patient_registration True jane jane_uuid empty_state)) \<and>
   0x2D \<in> set (str ''555-000-1111'') \<and>
   get_patient_by_phone (str ''555-000-1111'')
     (snd (render_patient_registration True jane jane_uuid empty_state)) = None \<and>
   get_patient_by_phone (clean_phone (str ''555-000-1111''))
     (snd (render_patient_registration True jane jane_uuid empty_state)) = Some 0"
proof -
  let ?s = "snd (render_patient_registration True jane jane_uuid empty_state)"
  have r: "reachable ?s"
    by (rule reachable.registration [OF reachable.start, of True jane jane_uuid]) (rule surjective_pairing)
  have m: "0x2D \<in> set (str ''555-000-1111'')" by code_simp
  then have h: "0x20 \<in> set (str ''555-000-1111'') \<or> 0x2D \<in> set (str ''555-000-1111'')" ..
  have n: "get_patient_by_phone (clean_phone (str ''555-000-1111'')) ?s = Some 0" by code_simp
  from store_lookup_does_not_normalise [OF r h] r n m show ?thesis by blast
qed


section \<open>Well-formed stores\<close>

lemma wf_update_patient: "wf s \<Longrightarrow> wf (snd (update_patient k u s))"
  by (simp add: update_patient_def wf_def split: option.splits)

lemma wf_rekey:
  assumes "wf s"
  shows "wf (s\<lparr>heap := heap s @ [p],
               patients_db := AList.update k' (length (heap s)) (AList.delete k (patients_db s))\<rparr>)"
proof -
  let ?n = "length (heap s)"
  let ?d = "AList.delete k (patients_db s)"
  have sub: "set (map snd ?d) \<subseteq> set (map snd (patients_db s))"
    by (auto simp: AList.delete_eq)
  from assms have inb: "\<forall>a \<in> set (map snd (patients_db s)). a < ?n"
    by (simp add: wf_def list_all_iff)
  have fresh: "?n \<notin> set (map snd ?d)"
  proof
    assume "?n \<in> set (map snd ?d)"
    with sub have "?n \<in> set (map snd (patients_db s))" by (rule subsetD)
    with inb show False by blast
  qed
  have "distinct (map fst (AList.update k' ?n ?d))"
    using assms by (simp add: wf_def distinct_update distinct_delete)
  moreover have "distinct (map snd ?d)"
    using assms by (simp add: wf_def AList.delete_eq distinct_map_filter)
  then have "distinct (map snd (AList.update k' ?n ?d))"
    using fresh by (rule update_values_distinct)
  moreover have "list_all (\<lambda>a. a < Suc ?n) (map snd (AList.update k' ?n ?d))"
    unfolding list_all_iff
  proof
    fix a
    assume "a \<in> set (map snd (AList.update k' ?n ?d))"
    then have "a = ?n \<or> a \<in> set (map snd ?d)"
      using update_values_subset [of k' ?n ?d] by blast
    then show "a < Suc ?n"
    proof
      assume "a = ?n"
      then show ?thesis by simp
    next
      assume "a \<in> set (map snd ?d)"
      with sub have "a \<in> set (map snd (patients_db s))" by (rule subsetD)
      with inb have "a < ?n" by blast
      then show ?thesis by simp
    qed
  qed
  ultimately show ?thesis by (simp add: wf_def)
qed

lemma wf_submit_update:
  assumes "wf s" shows "wf (snd (submit_update a f s))"
proof -
  let ?u = "\<lparr>new_name = strip (updated_name f), new_age = updated_age f,
             new_gender = updated_gender f, new_phone = clean_phone (updated_phone f),
             new_address = strip (updated_address f)\<rparr>"
  let ?s1 = "snd (update_patient (phone (heap s ! a)) ?u s)"
  have wf1: "wf ?s1" using assms by (rule wf_update_patient)
  show ?thesis
    using assms wf1 wf_rekey [OF wf1]
    by (auto simp: submit_update_def Let_def split_beta dict_del_def
        split: if_splits option.splits)
qed

lemma wf_lookup: "wf s \<Longrightarrow> wf (snd (render_patient_lookup str_upper b st v upd s))"
  by (auto simp: render_patient_lookup_def wf_submit_update
      split: lookup_result.splits option.splits)

text \<open>Every store a session can reach is well formed.\<close>

lemma reachable_wf: "reachable s \<Longrightarrow> wf s"
proof (induction rule: reachable.induct)
  case start
  show ?case by (rule wf_empty_state)
next
  case (registration s submitted f uuid4 r s')
  from registration.hyps(2) have "s' = snd (render_patient_registration submitted f uuid4 s)"
    by simp
  with registration.IH show ?case by (simp add: wf_registration)
next
  case (lookup s str_upper search_submitted st search_value upd r s')
  from lookup.hyps(2) have "s' = snd (render_patient_lookup str_upper search_submitted st search_value upd s)"
    by simp
  with lookup.IH show ?case by (simp add: wf_lookup)
qed

section \<open>Editing a phone\<close>

text \<open>
  The dictionary the search found is the dictionary the store holds under the patient's
  phone, so \<open>update_patient\<close> has already written the new phone into \<open>patient_data\<close> when
  line 307 compares the two: they are equal, and the re-keying of lines 308 to 312 is
  skipped. The store keeps the old key; only the \<open>phone\<close> entry changes.
\<close>

lemma update_of_keyed_patient:
  assumes "get_patient_by_phone k s = Some a" and "phone (heap s ! a) = k"
    and "a < length (heap s)" and "update_errors f = []"
  shows "fst (submit_update a f s) = Updated \<and>
         patients_db (snd (submit_update a f s)) = patients_db s \<and>
         phone (heap (snd (submit_update a f s)) ! a) = clean_phone (updated_phone f) \<and>
         hospital_id (heap (snd (submit_update a f s)) ! a) = hospital_id (heap s ! a)"
  using assms
  by (simp add: submit_update_def update_patient_def get_patient_by_phone_def Let_def
      dict_update_def)

lemma three_patients_reachable: "reachable (three_patients str_upper)"
proof -
  let ?s1 = "snd (render_patient_registration True ann ann_uuid empty_state)"
  let ?s2 = "snd (render_patient_lookup str_upper True PhoneNumber (str ''1111111111'')
                      (Some (ann_edit (str ''2222222222''))) ?s1)"
  let ?s3 = "snd (render_patient_registration True bob bob_uuid ?s2)"
  have "reachable ?s1"
    by (rule reachable.registration [OF reachable.start]) (rule surjective_pairing)
  then have "reachable ?s2"
    by (rule reachable.lookup) (rule surjective_pairing)
  then have "reachable ?s3"
    by (rule reachable.registration) (rule surjective_pairing)
  then have "reachable (snd (render_patient_registration True cid cid_uuid ?s3))"
    by (rule reachable.registration) (rule surjective_pairing)
  then show ?thesis by (simp add: three_patients_def Let_def)
qed

text \<open>
  C1. Claimed: a successful update that changes the phone re-keys the record. In the
  specification's own scenario (Jane Doe registers with 555-000-1111 and her phone is
  edited to 5559998888) the update succeeds, and afterwards the lookup of the old phone
  still finds her record, whose \<open>phone\<close> entry is the new number, and the lookup of the
  new phone finds nothing.
\<close>

theorem phone_edit_leaves_the_old_key:
  "(let s1 = snd (render_patient_registration True jane jane_uuid empty_state);
        s2 = snd (render_patient_lookup str_upper True PhoneNumber (str ''5550001111'')
                    (Some jane_edit) s1)
    in render_patient_lookup str_upper True PhoneNumber (str ''5550001111'') None s1
         = (PatientFound 0, s1) \<and>
       fst (render_patient_lookup str_upper True PhoneNumber (str ''5550001111'')
              (Some jane_edit) s1) = Updated \<and>
       render_patient_lookup str_upper True PhoneNumber (str ''5550001111'') None s2
         = (PatientFound 0, s2) \<and>
       render_patient_lookup str_upper True PhoneNumber (str ''5559998888'') None s2
         = (NotFound, s2) \<and>
       patients_db s2 = [(str ''5550001111'', 0)] \<and>
       heap s2 = [\<lparr>hospital_id = str ''HSP-3F2A9C1E'', name = str ''Jane Doe'', age = 34,
                   gender = str ''Female'', phone = str ''5559998888'',
                   address = str ''1 Main St''\<rparr>])"
  by code_simp

text \<open>
  C2. Claimed: an update never removes a record and never changes the count. Ann registers
  with 1111111111 and her phone is edited to 2222222222 (her record stays under the old
  key, as above); Bob registers with 2222222222 and Cid with 3333333333: three patients.
  Ann is looked up by 1111111111 and her phone is edited to 3333333333. Now
  \<open>patient_data['phone']\<close> is Bob's key: \<open>update_patient\<close> overwrites Bob's record, the
  comparison of line 307 sees different phones, line 309 deletes Bob's entry and line 311
  puts the edited data, under Ann's hospital ID, in the place of Cid's record. Two
  patients are left, and neither Bob's nor Cid's hospital ID is in the store.
\<close>

theorem update_can_delete_and_overwrite:
  "(let s = snd (render_patient_lookup str_upper True PhoneNumber (str ''1111111111'')
                  (Some (ann_edit (str ''3333333333''))) (three_patients str_upper))
    in wf (three_patients str_upper) \<and>
       get_total_patients (three_patients str_upper) = 3 \<and>
       found_by_id (str ''HSP-0B0B0B0B'') (three_patients str_upper)
         = Some (registered_record bob bob_uuid) \<and>
       found_by_phone (str ''3333333333'') (three_patients str_upper)
         = Some (registered_record cid cid_uuid) \<and>
       found_by_id (str ''HSP-0C0C0C0C'') (three_patients str_upper)
         = Some (registered_record cid cid_uuid) \<and>
       fst (render_patient_lookup str_upper True PhoneNumber (str ''1111111111'')
              (Some (ann_edit (str ''3333333333''))) (three_patients str_upper))
         = UpdatedAndRekeyed \<and>
       get_total_patients s = 2 \<and>
       patients_db s = [(str ''1111111111'', 0), (str ''3333333333'', 3)] \<and>
       found_by_id (str ''HSP-0B0B0B0B'') s = None \<and>
       found_by_id (str ''HSP-0C0C0C0C'') s = None \<and>
       found_by_phone (str ''3333333333'') s
         = Some \<lparr>hospital_id = str ''HSP-0A0A0A0A'', name = str ''Ann'', age = 30,
                  gender = str ''Female'', phone = str ''3333333333'',
                  address = str ''1 Elm St''\<rparr>)"
  by code_simp

end
